theory Spec2Isabelle
  imports Main "HOL-Library.AList"
begin

section \<open>Process groups: backend routing and group identity\<close>

text \<open>
  The model follows \<^verbatim>\<open>torch/csrc/distributed/c10d/ProcessGroup.cpp\<close>.
  The three hash maps of a \<^verbatim>\<open>ProcessGroup\<close> are association lists: lookup is
  \<open>map_of\<close>, assignment through \<^verbatim>\<open>operator[]\<close> is \<open>AList.update\<close>, and the order
  of the list stands for the iteration order of the hash map (which C++ leaves
  unspecified), so \<^verbatim>\<open>begin()\<close> is the head of the list.

  The enumerations \<^verbatim>\<open>c10::DeviceType\<close> and \<^verbatim>\<open>ProcessGroup::BackendType\<close> are
  declared in headers; the source file names \<^verbatim>\<open>BackendType::UNDEFINED\<close> and
  includes the Gloo, MPI, NCCL and UCC backends. No theorem below depends on
  which enumerators exist.
\<close>

datatype DeviceType = CPU | CUDA | OtherDevice nat

datatype BackendType = UNDEFINED | GLOO | NCCL | UCC | MPI | CUSTOM

text \<open>
  Backends are shared objects (\<^verbatim>\<open>c10::intrusive_ptr<Backend>\<close>): the same instance can
  sit under a backend type and under several device types. A backend is therefore
  an address into a store of backend objects, and the setters below update the
  store.

  Modelled from the spec: the \<^verbatim>\<open>Backend\<close> class is not part of the source file. Its
  interface is taken from the spec's collaborator contract: \<^verbatim>\<open>getGroupUid\<close> reads
  what \<^verbatim>\<open>setGroupUid\<close> stored, \<^verbatim>\<open>setGroupDesc\<close> stores the description and
  \<^verbatim>\<open>enableCollectivesTiming\<close> switches the timing flag on.
\<close>

type_synonym backend_ref = nat

record Backend =
  pg_uid :: string
  backend_desc :: string
  timing_enabled :: bool

type_synonym backend_store = "backend_ref \<Rightarrow> Backend"

definition getGroupUid :: "backend_store \<Rightarrow> backend_ref \<Rightarrow> string" where
  "getGroupUid bs b = pg_uid (bs b)"

definition setGroupUid :: "backend_ref \<Rightarrow> string \<Rightarrow> backend_store \<Rightarrow> backend_store" where
  "setGroupUid b name bs = bs (b := (bs b)\<lparr>pg_uid := name\<rparr>)"

definition Backend_setGroupDesc :: "backend_ref \<Rightarrow> string \<Rightarrow> backend_store \<Rightarrow> backend_store" where
  "Backend_setGroupDesc b name bs = bs (b := (bs b)\<lparr>backend_desc := name\<rparr>)"

definition Backend_enableCollectivesTiming :: "backend_ref \<Rightarrow> backend_store \<Rightarrow> backend_store" where
  "Backend_enableCollectivesTiming b bs = bs (b := (bs b)\<lparr>timing_enabled := True\<rparr>)"

text \<open>
  The fields of \<^verbatim>\<open>ProcessGroup\<close> that the file reads or writes. A name cannot
  end in an underscore here, so \<^verbatim>\<open>store_\<close>, \<^verbatim>\<open>rank_\<close>, \<^verbatim>\<open>size_\<close>, \<^verbatim>\<open>backendType_\<close>
  and \<^verbatim>\<open>pg_desc_\<close> are written with the prefix \<open>pg_\<close> and the three maps without
  their last underscore. \<open>pg_store\<close> is the optional reference to the rendezvous
  store (\<open>None\<close> after \<^verbatim>\<open>reset()\<close> and for the store-less constructor).
\<close>

record ProcessGroup =
  pg_store :: "nat option"
  pg_rank :: int
  pg_size :: int
  pg_backendType :: BackendType
  pg_desc :: string
  deviceTypeToBackendType :: "(DeviceType \<times> BackendType) list"
  deviceTypeToBackend :: "(DeviceType \<times> backend_ref) list"
  backendTypeToBackend :: "(BackendType \<times> backend_ref) list"

text \<open>The two constructors: every map starts empty and the description is the empty string.\<close>

definition ProcessGroup_with_store :: "nat \<Rightarrow> int \<Rightarrow> int \<Rightarrow> ProcessGroup" where
  "ProcessGroup_with_store store rank sz =
     \<lparr>pg_store = Some store, pg_rank = rank, pg_size = sz, pg_backendType = UNDEFINED,
      pg_desc = [], deviceTypeToBackendType = [], deviceTypeToBackend = [],
      backendTypeToBackend = []\<rparr>"

definition ProcessGroup_without_store :: "int \<Rightarrow> int \<Rightarrow> ProcessGroup" where
  "ProcessGroup_without_store rank sz =
     \<lparr>pg_store = None, pg_rank = rank, pg_size = sz, pg_backendType = UNDEFINED,
      pg_desc = [], deviceTypeToBackendType = [], deviceTypeToBackend = [],
      backendTypeToBackend = []\<rparr>"

text \<open>The three \<^verbatim>\<open>TORCH_CHECK\<close> failures of the group, with the values their messages print.\<close>

datatype pg_error =
    NoBackendTypeForDevice DeviceType
  | CouldNotRetrieveBackend BackendType DeviceType
  | GroupNameNotSet

text \<open>
  \<^verbatim>\<open>getBackend\<close>: the cache is asked first; on a miss the configured backend type is
  looked up (\<^verbatim>\<open>at\<close> throws \<^verbatim>\<open>out_of_range\<close>, turned into the first error), then the
  live instance; a hit is stored in the cache. Both errors are raised before any
  write, so an error leaves the group as it was.
\<close>

definition getBackend :: "DeviceType \<Rightarrow> ProcessGroup \<Rightarrow> pg_error + (backend_ref \<times> ProcessGroup)" where
  "getBackend deviceType pg =
     (case map_of (deviceTypeToBackend pg) deviceType of
        Some cached \<Rightarrow> Inr (cached, pg)
      | None \<Rightarrow>
          (case map_of (deviceTypeToBackendType pg) deviceType of
             None \<Rightarrow> Inl (NoBackendTypeForDevice deviceType)
           | Some backendType \<Rightarrow>
               (case map_of (backendTypeToBackend pg) backendType of
                  Some backend \<Rightarrow>
                    Inr (backend,
                         pg\<lparr>deviceTypeToBackend :=
                              AList.update deviceType backend (deviceTypeToBackend pg)\<rparr>)
                | None \<Rightarrow> Inl (CouldNotRetrieveBackend backendType deviceType))))"

definition getGroupName :: "ProcessGroup \<Rightarrow> backend_store \<Rightarrow> pg_error + string" where
  "getGroupName pg bs =
     (case deviceTypeToBackend pg of
        [] \<Rightarrow> Inl GroupNameNotSet
      | kv # _ \<Rightarrow> Inr (getGroupUid bs (snd kv)))"

definition setGroupName :: "string \<Rightarrow> ProcessGroup \<Rightarrow> backend_store \<Rightarrow> backend_store" where
  "setGroupName name pg bs =
     fold (\<lambda>kv. setGroupUid (snd kv) name) (deviceTypeToBackend pg) bs"

definition getGroupDesc :: "ProcessGroup \<Rightarrow> string" where
  "getGroupDesc pg = pg_desc pg"

definition setGroupDesc ::
  "string \<Rightarrow> ProcessGroup \<times> backend_store \<Rightarrow> ProcessGroup \<times> backend_store" where
  "setGroupDesc name st =
     (let pg = (fst st)\<lparr>pg_desc := name\<rparr>
      in (pg, fold (\<lambda>kv. Backend_setGroupDesc (snd kv) name) (deviceTypeToBackend pg) (snd st)))"

definition enableCollectivesTiming :: "ProcessGroup \<Rightarrow> backend_store \<Rightarrow> backend_store" where
  "enableCollectivesTiming pg bs =
     fold (\<lambda>kv. Backend_enableCollectivesTiming (snd kv)) (deviceTypeToBackend pg) bs"

definition release_resources :: "ProcessGroup \<Rightarrow> ProcessGroup" where
  "release_resources pg =
     pg\<lparr>pg_store := None, deviceTypeToBackend := [], backendTypeToBackend := []\<rparr>"

text \<open>
  The backends a group owns: every instance referenced from the backend-type index
  (the canonical storage) or from the device-type index (the cache).
\<close>

definition attached_backends :: "ProcessGroup \<Rightarrow> backend_ref list" where
  "attached_backends pg = map snd (backendTypeToBackend pg) @ map snd (deviceTypeToBackend pg)"

definition cached_backends :: "ProcessGroup \<Rightarrow> backend_ref list" where
  "cached_backends pg = map snd (deviceTypeToBackend pg)"

section \<open>The registry of pending work\<close>

text \<open>
  \<^verbatim>\<open>WorkRegistry\<close> maps the weak reference to a tensor's storage to the vector of
  work handles issued against it. The key is hashed and compared by the address
  of the \<^verbatim>\<open>StorageImpl\<close>, so a key is that address. A handle is a
  \<^verbatim>\<open>c10::intrusive_ptr<Work>\<close>, which may be null: \<open>None\<close> is the null handle,
  \<open>Some w\<close> points to the work object \<open>w\<close>, and \<^verbatim>\<open>defined()\<close> is \<open>work \<noteq> None\<close>.
\<close>

type_synonym weak_storage = nat

type_synonym work_ref = nat

type_synonym work_ptr = "work_ref option"

text \<open>
  Modelled from the spec: the \<^verbatim>\<open>Work\<close> class is not part of the source file. The spec
  requires two operations of it: \<^verbatim>\<open>isCompleted()\<close>, a query that neither blocks nor
  throws, and \<^verbatim>\<open>wait()\<close>, which blocks until completion or propagates the failure of
  the operation. \<open>completed\<close> is what the query answers and \<open>wait_raises\<close> says
  whether \<^verbatim>\<open>wait()\<close> on this object propagates a failure.
\<close>

record Work =
  completed :: bool
  wait_raises :: bool

text \<open>
  What the file asks of an \<^verbatim>\<open>at::Tensor\<close>: \<^verbatim>\<open>toString()\<close>, \<^verbatim>\<open>has_storage()\<close> and
  \<^verbatim>\<open>storage().getWeakStorageImpl()\<close>. The tensor class is outside the file, so the
  three answers are the tensor. \<open>storage\<close> is \<open>None\<close> for a tensor whose storage
  accessor throws instead of returning.
\<close>

record Tensor =
  toString :: string
  has_storage :: bool
  storage :: "weak_storage option"

datatype registry_error =
    StorageAccessError
  | NullWorkDereference
  | WaitError work_ref

datatype warning =
    NoStorageWarning string
  | UnwaitedWarning nat

text \<open>
  The state the registry's operations read and write: the map itself
  (\<^verbatim>\<open>registry_\<close>), the work objects the handles point to, the trace of \<^verbatim>\<open>wait()\<close>
  invocations in the order they were made, the handles given up by
  \<^verbatim>\<open>intrusive_ptr::release()\<close>, the warnings emitted so far and the flag of the one
  \<^verbatim>\<open>TORCH_WARN_ONCE\<close> site. The mutex is not modelled: each method body runs under
  the lock, so each is one step on this state.
\<close>

record registry_state =
  registry :: "(weak_storage \<times> work_ptr list) list"
  works :: "work_ref \<Rightarrow> Work"
  wait_calls :: "work_ref list"
  released :: "work_ptr list"
  warnings :: "warning list"
  warned_once :: bool

type_synonym 'a outcome = "registry_state \<times> (registry_error + 'a)"

definition TORCH_WARN :: "warning \<Rightarrow> registry_state \<Rightarrow> registry_state" where
  "TORCH_WARN w s = s\<lparr>warnings := warnings s @ [w]\<rparr>"

text \<open>
  Modelled from the spec: the macro \<^verbatim>\<open>TORCH_WARN_ONCE\<close> is defined outside the file.
  The spec calls it a one-time warning: the first execution of the site emits the
  warning, later ones emit nothing.
\<close>

definition TORCH_WARN_ONCE :: "warning \<Rightarrow> registry_state \<Rightarrow> registry_state" where
  "TORCH_WARN_ONCE w s =
     (if warned_once s then s else (TORCH_WARN w s)\<lparr>warned_once := True\<rparr>)"

definition defined :: "work_ptr \<Rightarrow> bool" where
  "defined work = (work \<noteq> None)"

definition isCompleted :: "(work_ref \<Rightarrow> Work) \<Rightarrow> work_ref \<Rightarrow> bool" where
  "isCompleted ws w = completed (ws w)"

text \<open>
  Modelled from the spec: \<^verbatim>\<open>work->wait()\<close> on a work object, which the file calls and
  does not define. The invocation is recorded; it either propagates the failure of
  the operation or returns with the operation completed.
\<close>

definition Work_wait :: "work_ref \<Rightarrow> registry_state \<Rightarrow> unit outcome" where
  "Work_wait w s =
     (let s1 = s\<lparr>wait_calls := wait_calls s @ [w]\<rparr>
      in if wait_raises (works s w) then (s1, Inl (WaitError w))
         else (s1\<lparr>works := (works s1)(w := (works s1 w)\<lparr>completed := True\<rparr>)\<rparr>, Inr ()))"

subsection \<open>The methods of the registry\<close>

definition WorkRegistry_register_work :: "Tensor \<Rightarrow> work_ptr \<Rightarrow> registry_state \<Rightarrow> unit outcome" where
  "WorkRegistry_register_work tensor work s =
     (if \<not> has_storage tensor
      then (TORCH_WARN_ONCE (NoStorageWarning (toString tensor)) s, Inr ())
      else
        (case storage tensor of
           None \<Rightarrow> (s, Inl StorageAccessError)
         | Some key \<Rightarrow>
             (case map_of (registry s) key of
                None \<Rightarrow> (s\<lparr>registry := registry s @ [(key, [work])]\<rparr>, Inr ())
              | Some _ \<Rightarrow>
                  (s\<lparr>registry := AList.map_entry key (\<lambda>ws. ws @ [work]) (registry s)\<rparr>,
                   Inr ()))))"

definition pop_works :: "Tensor \<Rightarrow> registry_state \<Rightarrow> (work_ptr list) outcome" where
  "pop_works tensor s =
     (case storage tensor of
        None \<Rightarrow> (s, Inl StorageAccessError)
      | Some key \<Rightarrow>
          (case map_of (registry s) key of
             None \<Rightarrow> (s, Inr [])
           | Some ws \<Rightarrow> (s\<lparr>registry := AList.delete key (registry s)\<rparr>, Inr ws)))"

text \<open>
  The build flags \<^verbatim>\<open>USE_CUDA\<close> and \<^verbatim>\<open>USE_ROCM\<close> select the body of
  \<^verbatim>\<open>can_unregister_completed_works\<close>; \<^verbatim>\<open>at::cuda::is_available()\<close> and
  \<^verbatim>\<open>at::cuda::CUDAGraph::is_capturing()\<close> are answered by the environment.
\<close>

record build_flags =
  USE_CUDA :: bool
  USE_ROCM :: bool

record cuda_env =
  is_available :: bool
  is_capturing :: bool

definition can_unregister_completed_works :: "build_flags \<Rightarrow> cuda_env \<Rightarrow> bool" where
  "can_unregister_completed_works flags env =
     (if USE_CUDA flags \<and> \<not> USE_ROCM flags
      then (if is_available env \<and> \<not> is_capturing env then False else True)
      else True)"

text \<open>
  The inner loop of \<^verbatim>\<open>unregister_completed_works\<close>: \<open>acc\<close> is the vector
  \<^verbatim>\<open>uncompleted_works\<close>, extended by \<^verbatim>\<open>push_back\<close>. \<^verbatim>\<open>isCompleted\<close> is asked of
  defined handles only.
\<close>

fun collect_uncompleted ::
  "(work_ref \<Rightarrow> Work) \<Rightarrow> work_ptr list \<Rightarrow> work_ptr list \<Rightarrow> work_ptr list" where
  "collect_uncompleted ws [] acc = acc"
| "collect_uncompleted ws (work # rest) acc =
     (case work of
        None \<Rightarrow> collect_uncompleted ws rest acc
      | Some w \<Rightarrow>
          (if \<not> isCompleted ws w then collect_uncompleted ws rest (acc @ [work])
           else collect_uncompleted ws rest acc))"

text \<open>The outer loop: an entry with nothing left is erased, any other keeps the remainder.\<close>

fun prune_entries ::
  "(work_ref \<Rightarrow> Work) \<Rightarrow> (weak_storage \<times> work_ptr list) list \<Rightarrow> (weak_storage \<times> work_ptr list) list" where
  "prune_entries ws [] = []"
| "prune_entries ws (entry # rest) =
     (let uncompleted_works = collect_uncompleted ws (snd entry) []
      in if uncompleted_works = [] then prune_entries ws rest
         else (fst entry, uncompleted_works) # prune_entries ws rest)"

definition WorkRegistry_unregister_completed_works :: "registry_state \<Rightarrow> registry_state" where
  "WorkRegistry_unregister_completed_works s =
     s\<lparr>registry := prune_entries (works s) (registry s)\<rparr>"

text \<open>
  \<^verbatim>\<open>total_size\<close> is a \<^verbatim>\<open>size_t\<close>; the sum of the lengths of vectors held in memory
  cannot wrap, so it is a natural number here.
\<close>

definition WorkRegistry_get_work_registry_size :: "registry_state \<Rightarrow> nat" where
  "WorkRegistry_get_work_registry_size s =
     fold (\<lambda>entry total_size. total_size + length (snd entry)) (registry s) 0"

text \<open>
  The destructor. \<^verbatim>\<open>work.release()\<close> hands the raw pointer back and leaves the
  handle null without touching the work object: the handle is recorded in
  \<open>released\<close> and its slot in the registry becomes \<open>None\<close>.
\<close>

definition WorkRegistry_destructor :: "registry_state \<Rightarrow> registry_state" where
  "WorkRegistry_destructor s =
     (let registry_size = WorkRegistry_get_work_registry_size s;
          s1 = (if registry_size > 0 then TORCH_WARN (UnwaitedWarning registry_size) s else s)
      in s1\<lparr>released := released s1 @ concat (map snd (registry s1)),
            registry := map (\<lambda>entry. (fst entry, map (\<lambda>work. None) (snd entry))) (registry s1)\<rparr>)"

subsection \<open>The free functions of namespace c10d\<close>

text \<open>
  \<^verbatim>\<open>RankLocal<WorkRegistry>::get()\<close> yields the registry of the current rank; the
  state passed around is that instance.
\<close>

definition register_work ::
  "build_flags \<Rightarrow> cuda_env \<Rightarrow> Tensor \<Rightarrow> work_ptr \<Rightarrow> registry_state \<Rightarrow> unit outcome" where
  "register_work flags env tensor work s =
     (let s1 = (if can_unregister_completed_works flags env
                then WorkRegistry_unregister_completed_works s else s)
      in WorkRegistry_register_work tensor work s1)"

text \<open>
  The loop of \<^verbatim>\<open>wait_tensor\<close>. \<^verbatim>\<open>work->wait()\<close> on a null handle dereferences a null
  pointer, which is the error \<open>NullWorkDereference\<close>; an error ends the loop, and
  the handles after it are not waited on.
\<close>

fun wait_all :: "work_ptr list \<Rightarrow> registry_state \<Rightarrow> unit outcome" where
  "wait_all [] s = (s, Inr ())"
| "wait_all (work # rest) s =
     (case work of
        None \<Rightarrow> (s, Inl NullWorkDereference)
      | Some w \<Rightarrow>
          (case Work_wait w s of
             (s1, Inl e) \<Rightarrow> (s1, Inl e)
           | (s1, Inr _) \<Rightarrow> wait_all rest s1))"

definition wait_tensor :: "Tensor \<Rightarrow> registry_state \<Rightarrow> Tensor outcome" where
  "wait_tensor tensor s =
     (case pop_works tensor s of
        (s1, Inl e) \<Rightarrow> (s1, Inl e)
      | (s1, Inr ws) \<Rightarrow>
          (case wait_all ws s1 of
             (s2, Inl e) \<Rightarrow> (s2, Inl e)
           | (s2, Inr _) \<Rightarrow> (s2, Inr tensor)))"

definition unregister_completed_works :: "registry_state \<Rightarrow> registry_state" where
  "unregister_completed_works s = WorkRegistry_unregister_completed_works s"

definition get_work_registry_size :: "registry_state \<Rightarrow> nat" where
  "get_work_registry_size s = WorkRegistry_get_work_registry_size s"

text \<open>A registry as the constructor leaves it: nothing registered, nothing emitted.\<close>

definition empty_registry :: "(work_ref \<Rightarrow> Work) \<Rightarrow> registry_state" where
  "empty_registry ws =
     \<lparr>registry = [], works = ws, wait_calls = [], released = [], warnings = [],
      warned_once = False\<rparr>"

section \<open>Predicates and example states used by the theorems\<close>

text \<open>
  A handle survives pruning when it is defined and its work is not completed: the
  condition \<^verbatim>\<open>work.defined() && !work->isCompleted()\<close> as a predicate.
\<close>

definition still_pending :: "(work_ref \<Rightarrow> Work) \<Rightarrow> work_ptr \<Rightarrow> bool" where
  "still_pending ws work = (case work of None \<Rightarrow> False | Some w \<Rightarrow> \<not> completed (ws w))"


definition no_empty_entries :: "registry_state \<Rightarrow> bool" where
  "no_empty_entries s = list_all (\<lambda>entry. snd entry \<noteq> []) (registry s)"

text \<open>Backends for the examples: backend \<open>b\<close> starts with the group UID \<open>''pg0''\<close>.\<close>

definition example_backends :: backend_store where
  "example_backends = (\<lambda>b. \<lparr>pg_uid = ''pg0'', backend_desc = [], timing_enabled = False\<rparr>)"

text \<open>
  The spec's scenario: rank 0 of 2, CPU mapped to GLOO and CUDA to NCCL, only the GLOO
  backend constructed, nothing resolved yet.
\<close>

definition scenario_group :: ProcessGroup where
  "scenario_group =
     (ProcessGroup_without_store 0 2)
       \<lparr>deviceTypeToBackendType := [(CPU, GLOO), (CUDA, NCCL)],
        backendTypeToBackend := [(GLOO, 0)]\<rparr>"

text \<open>Both backends constructed, and only CPU resolved so far.\<close>

definition half_resolved_group :: ProcessGroup where
  "half_resolved_group =
     (ProcessGroup_without_store 0 2)
       \<lparr>deviceTypeToBackendType := [(CPU, GLOO), (CUDA, NCCL)],
        deviceTypeToBackend := [(CPU, 0)],
        backendTypeToBackend := [(GLOO, 0), (NCCL, 1)]\<rparr>"

text \<open>Both backends constructed and nothing resolved yet.\<close>

definition two_backend_group :: ProcessGroup where
  "two_backend_group =
     (ProcessGroup_without_store 0 2)
       \<lparr>deviceTypeToBackendType := [(CPU, GLOO), (CUDA, NCCL)],
        backendTypeToBackend := [(GLOO, 0), (NCCL, 1)]\<rparr>"

text \<open>
  The cache agrees with the two mappings when every cached device type has a
  configured backend type whose instance is the cached backend.
\<close>

definition consistent_with ::
  "(DeviceType \<times> BackendType) list \<Rightarrow> (BackendType \<times> backend_ref) list \<Rightarrow>
   (DeviceType \<times> backend_ref) list \<Rightarrow> bool" where
  "consistent_with config backends cache =
     list_all
       (\<lambda>kv. case map_of config (fst kv) of
                None \<Rightarrow> False
              | Some backendType \<Rightarrow> map_of backends backendType = Some (snd kv))
       cache"

definition cache_consistent :: "ProcessGroup \<Rightarrow> bool" where
  "cache_consistent pg =
     consistent_with (deviceTypeToBackendType pg) (backendTypeToBackend pg)
       (deviceTypeToBackend pg)"

text \<open>
  The states a group can be in. The file writes the cache in one place, the
  assignment in \<^verbatim>\<open>getBackend\<close> after both lookups have succeeded, and clears it in
  \<^verbatim>\<open>release_resources\<close>. The two mappings are filled during setup by an
  initializer outside the file, so a group starts with any two mappings and an
  empty cache, and from there it changes through \<^verbatim>\<open>getBackend\<close>,
  \<^verbatim>\<open>setGroupDesc\<close> and \<^verbatim>\<open>release_resources\<close>.
\<close>

inductive group_reachable :: "ProcessGroup \<Rightarrow> bool" where
  set_up: "deviceTypeToBackend pg = [] \<Longrightarrow> group_reachable pg"
| resolved: "group_reachable pg \<Longrightarrow> getBackend d pg = Inr (b, pg') \<Longrightarrow> group_reachable pg'"
| described: "group_reachable pg \<Longrightarrow> group_reachable (fst (setGroupDesc name (pg, bs)))"
| let_go: "group_reachable pg \<Longrightarrow> group_reachable (release_resources pg)"

text \<open>Tensors for the examples: a dense tensor on the storage \<open>k\<close>, and one without storage.\<close>

definition dense_tensor :: "weak_storage \<Rightarrow> Tensor" where
  "dense_tensor k = \<lparr>toString = ''CPUFloatType'', has_storage = True, storage = Some k\<rparr>"

definition sparse_tensor :: Tensor where
  "sparse_tensor = \<lparr>toString = ''SparseCPUFloatType'', has_storage = False, storage = None\<rparr>"

text \<open>Work objects 0 and 1 are completed, every other is pending; no \<^verbatim>\<open>wait()\<close> fails.\<close>

definition example_works :: "work_ref \<Rightarrow> Work" where
  "example_works = (\<lambda>w. \<lparr>completed = (w < 2), wait_raises = False\<rparr>)"


text \<open>Registering a list of handles against one tensor, in order, skipping errors.\<close>

fun register_all :: "Tensor \<Rightarrow> work_ptr list \<Rightarrow> registry_state \<Rightarrow> registry_state" where
  "register_all t [] s = s"
| "register_all t (h # hs) s = register_all t hs (fst (WorkRegistry_register_work t h s))"

text \<open>Storage 7 with handles in the states completed, completed, pending; storage 8 all completed.\<close>

definition mixed_registry :: registry_state where
  "mixed_registry =
     register_all (dense_tensor 8) [Some 0, Some 1]
       (register_all (dense_tensor 7) [Some 0, Some 1, Some 2] (empty_registry example_works))"

text \<open>Storage 7 with a null handle and a pending one; storage 9 with a null handle only.\<close>

definition null_handle_registry :: registry_state where
  "null_handle_registry =
     register_all (dense_tensor 9) [None]
       (register_all (dense_tensor 7) [None, Some 2] (empty_registry example_works))"

text \<open>Two pending handles on storage 7, issued in the order 2, 3.\<close>

definition pending_registry :: registry_state where
  "pending_registry = register_all (dense_tensor 7) [Some 2, Some 3] (empty_registry example_works)"






text \<open>A build with CUDA and without ROCm.\<close>

definition cuda_build :: build_flags where
  "cuda_build = \<lparr>USE_CUDA = True, USE_ROCM = False\<rparr>"

text \<open>
  The states a registry can be in: it starts empty, and it changes through the free
  functions \<^verbatim>\<open>register_work\<close>, \<^verbatim>\<open>wait_tensor\<close> and
  \<^verbatim>\<open>unregister_completed_works\<close> (and the method behind the first), while the
  work objects change on their own as operations complete.
\<close>

inductive reachable :: "registry_state \<Rightarrow> bool" where
  initial: "reachable (empty_registry ws)"
| registered: "reachable s \<Longrightarrow> reachable (fst (register_work flags env t h s))"
| registered_method: "reachable s \<Longrightarrow> reachable (fst (WorkRegistry_register_work t h s))"
| waited: "reachable s \<Longrightarrow> reachable (fst (wait_tensor t s))"
| pruned: "reachable s \<Longrightarrow> reachable (unregister_completed_works s)"
| progressed: "reachable s \<Longrightarrow> reachable (s\<lparr>works := ws\<rparr>)"

section \<open>Group identity and backend routing: theorems\<close>

lemma fold_setGroupUid:
  "fold (\<lambda>kv. setGroupUid (snd kv) name) xs bs b =
     (if b \<in> snd ` set xs then (bs b)\<lparr>pg_uid := name\<rparr> else bs b)"
  by (induction xs arbitrary: bs) (auto simp: setGroupUid_def)

lemma fold_Backend_setGroupDesc:
  "fold (\<lambda>kv. Backend_setGroupDesc (snd kv) name) xs bs b =
     (if b \<in> snd ` set xs then (bs b)\<lparr>backend_desc := name\<rparr> else bs b)"
  by (induction xs arbitrary: bs) (auto simp: Backend_setGroupDesc_def)

lemma fold_Backend_enableCollectivesTiming:
  "fold (\<lambda>kv. Backend_enableCollectivesTiming (snd kv)) xs bs b =
     (if b \<in> snd ` set xs then (bs b)\<lparr>timing_enabled := True\<rparr> else bs b)"
  by (induction xs arbitrary: bs) (auto simp: Backend_enableCollectivesTiming_def)

lemma scenario_group_fields:
  "deviceTypeToBackend scenario_group = [] \<and>
   deviceTypeToBackendType scenario_group = [(CPU, GLOO), (CUDA, NCCL)] \<and>
   backendTypeToBackend scenario_group = [(GLOO, 0)]"
  by (simp add: scenario_group_def ProcessGroup_without_store_def)

lemma half_resolved_group_fields:
  "deviceTypeToBackend half_resolved_group = [(CPU, 0)] \<and>
   backendTypeToBackend half_resolved_group = [(GLOO, 0), (NCCL, 1)]"
  by (simp add: half_resolved_group_def ProcessGroup_without_store_def)

lemma two_backend_group_fields:
  "deviceTypeToBackend two_backend_group = [] \<and>
   deviceTypeToBackendType two_backend_group = [(CPU, GLOO), (CUDA, NCCL)] \<and>
   backendTypeToBackend two_backend_group = [(GLOO, 0), (NCCL, 1)]"
  by (simp add: two_backend_group_def ProcessGroup_without_store_def)

lemma getBackend_two_backend_group:
  "getBackend CPU two_backend_group = Inr (0, half_resolved_group)"
  by (simp add: getBackend_def two_backend_group_def half_resolved_group_def
      ProcessGroup_without_store_def)

text \<open>
  What the three setters do: they loop over the device-type index. Every backend
  in that index ends with the value passed, and every other backend is as it was.
\<close>

lemma setters_reach_cached_backends:
  "(b \<in> set (cached_backends pg) \<longrightarrow>
      getGroupUid (setGroupName name pg bs) b = name \<and>
      backend_desc (snd (setGroupDesc name (pg, bs)) b) = name \<and>
      timing_enabled (enableCollectivesTiming pg bs b)) \<and>
   (b \<notin> set (cached_backends pg) \<longrightarrow>
      setGroupName name pg bs b = bs b \<and>
      snd (setGroupDesc name (pg, bs)) b = bs b \<and>
      enableCollectivesTiming pg bs b = bs b)"
  by (simp add: cached_backends_def setGroupName_def setGroupDesc_def
      enableCollectivesTiming_def getGroupUid_def fold_setGroupUid
      fold_Backend_setGroupDesc fold_Backend_enableCollectivesTiming)

text \<open>
  Claim C3 says that after \<^verbatim>\<open>setGroupName\<close>, \<^verbatim>\<open>setGroupDesc\<close> or
  \<^verbatim>\<open>enableCollectivesTiming\<close> every backend attached to the group observes the
  same value, cached under a device type or not; the comment in \<^verbatim>\<open>setGroupDesc\<close>
  says the same ("Also set the group desc for all backends"). The code does not
  do that. The theorem evaluates it on a group with two backends of which only the
  first has been resolved: \<^verbatim>\<open>getBackend(CPU)\<close> on the group as set up leads to that
  state, and there backend 0 receives the description, the name and the timing
  flag while backend 1, attached under NCCL, keeps its old description, its old
  group UID and its timing flag off.
\<close>

theorem setters_skip_uncached_backend:
  "getBackend CPU two_backend_group = Inr (0, half_resolved_group) \<and>
   attached_backends half_resolved_group = [0, 1, 0] \<and>
   backend_desc (snd (setGroupDesc ''tp'' (half_resolved_group, example_backends)) 0) = ''tp'' \<and>
   backend_desc (snd (setGroupDesc ''tp'' (half_resolved_group, example_backends)) 1) = [] \<and>
   getGroupUid (setGroupName ''tp'' half_resolved_group example_backends) 0 = ''tp'' \<and>
   getGroupUid (setGroupName ''tp'' half_resolved_group example_backends) 1 = ''pg0'' \<and>
   timing_enabled (enableCollectivesTiming half_resolved_group example_backends 0) \<and>
   \<not> timing_enabled (enableCollectivesTiming half_resolved_group example_backends 1)"
  by (simp add: getBackend_two_backend_group attached_backends_def half_resolved_group_fields
      setGroupName_def setGroupDesc_def enableCollectivesTiming_def getGroupUid_def
      setGroupUid_def Backend_setGroupDesc_def Backend_enableCollectivesTiming_def
      example_backends_def)

lemma update_list_all:
  "list_all P al \<Longrightarrow> P (k, v) \<Longrightarrow> list_all P (AList.update k v al)"
  by (induction al) auto

lemma getBackend_cases:
  "getBackend d pg = Inr (b, pg') \<Longrightarrow>
     (map_of (deviceTypeToBackend pg) d = Some b \<and> pg' = pg) \<or>
     (map_of (deviceTypeToBackend pg) d = None \<and>
      (\<exists>bt. map_of (deviceTypeToBackendType pg) d = Some bt \<and>
            map_of (backendTypeToBackend pg) bt = Some b) \<and>
      pg' = pg\<lparr>deviceTypeToBackend := AList.update d b (deviceTypeToBackend pg)\<rparr>)"
  by (auto simp: getBackend_def split: option.splits)

lemma getBackend_cache_consistent:
  assumes "cache_consistent pg" and "getBackend d pg = Inr (b, pg')"
  shows "cache_consistent pg'"
proof -
  from getBackend_cases [OF assms(2)] show ?thesis
  proof
    assume "map_of (deviceTypeToBackend pg) d = Some b \<and> pg' = pg"
    with assms(1) show ?thesis by simp
  next
    assume miss: "map_of (deviceTypeToBackend pg) d = None \<and>
      (\<exists>bt. map_of (deviceTypeToBackendType pg) d = Some bt \<and>
            map_of (backendTypeToBackend pg) bt = Some b) \<and>
      pg' = pg\<lparr>deviceTypeToBackend := AList.update d b (deviceTypeToBackend pg)\<rparr>"
    then obtain bt where bt: "map_of (deviceTypeToBackendType pg) d = Some bt"
      "map_of (backendTypeToBackend pg) bt = Some b" by blast
    from assms(1) bt miss show ?thesis
      by (simp add: cache_consistent_def consistent_with_def update_list_all)
  qed
qed

text \<open>In every state a group can be in, the cache agrees with the two mappings.\<close>

lemma group_reachable_cache_consistent: "group_reachable pg \<Longrightarrow> cache_consistent pg"
proof (induction rule: group_reachable.induct)
  case (set_up pg)
  then show ?case by (simp add: cache_consistent_def consistent_with_def)
next
  case (resolved pg d b pg')
  then show ?case by (simp add: getBackend_cache_consistent)
next
  case (described pg name bs)
  then show ?case by (simp add: cache_consistent_def setGroupDesc_def)
next
  case (let_go pg)
  show ?case by (simp add: cache_consistent_def consistent_with_def release_resources_def)
qed

lemma cache_consistent_hit:
  assumes "cache_consistent pg" and "map_of (deviceTypeToBackend pg) d = Some c"
  shows "\<exists>bt. map_of (deviceTypeToBackendType pg) d = Some bt \<and>
              map_of (backendTypeToBackend pg) bt = Some c"
proof -
  from assms(2) have "(d, c) \<in> set (deviceTypeToBackend pg)" by (rule map_of_SomeD)
  with assms(1) show ?thesis
    by (auto simp: cache_consistent_def consistent_with_def list_all_iff split: option.splits)
qed

text \<open>
  Claim C5. In every state a group can be in: \<^verbatim>\<open>getBackend\<close> fails with "No
  backend type associated with device type" for a device type with no configured
  backend type, and with "Could not retrieve or create the backend" for a device
  type whose configured backend type has no instance. When the backend type is
  configured and its instance exists the call succeeds with that instance. On
  success the returned backend is the instance of the configured type, it is
  cached under the device type afterwards, nothing else in the group changes, and
  the next call returns the same backend and changes nothing.
\<close>

theorem getBackend_resolution:
  assumes "group_reachable pg"
  shows "(map_of (deviceTypeToBackendType pg) d = None \<longrightarrow>
            getBackend d pg = Inl (NoBackendTypeForDevice d)) \<and>
         (map_of (deviceTypeToBackendType pg) d = Some bt \<and>
          map_of (backendTypeToBackend pg) bt = None \<longrightarrow>
            getBackend d pg = Inl (CouldNotRetrieveBackend bt d)) \<and>
         (map_of (deviceTypeToBackendType pg) d = Some bt \<and>
          map_of (backendTypeToBackend pg) bt = Some b \<longrightarrow>
            (\<exists>pg1. getBackend d pg = Inr (b, pg1))) \<and>
         (getBackend d pg = Inr (c, pg') \<longrightarrow>
            (\<exists>ct. map_of (deviceTypeToBackendType pg) d = Some ct \<and>
                  map_of (backendTypeToBackend pg) ct = Some c) \<and>
            map_of (deviceTypeToBackend pg') = (map_of (deviceTypeToBackend pg))(d \<mapsto> c) \<and>
            pg' = pg\<lparr>deviceTypeToBackend := deviceTypeToBackend pg'\<rparr> \<and>
            getBackend d pg' = Inr (c, pg'))"
proof -
  note cc = group_reachable_cache_consistent [OF assms]
  have unconfigured: "getBackend d pg = Inl (NoBackendTypeForDevice d)"
    if "map_of (deviceTypeToBackendType pg) d = None"
  proof (cases "map_of (deviceTypeToBackend pg) d")
    case None
    with that show ?thesis by (simp add: getBackend_def)
  next
    case (Some x)
    from cache_consistent_hit [OF cc Some] that show ?thesis by simp
  qed
  have unconstructed: "getBackend d pg = Inl (CouldNotRetrieveBackend bt d)"
    if "map_of (deviceTypeToBackendType pg) d = Some bt"
      and "map_of (backendTypeToBackend pg) bt = None"
  proof (cases "map_of (deviceTypeToBackend pg) d")
    case None
    with that show ?thesis by (simp add: getBackend_def)
  next
    case (Some x)
    from cache_consistent_hit [OF cc Some] that show ?thesis by simp
  qed
  have live: "\<exists>pg1. getBackend d pg = Inr (b, pg1)"
    if "map_of (deviceTypeToBackendType pg) d = Some bt"
      and "map_of (backendTypeToBackend pg) bt = Some b"
  proof (cases "map_of (deviceTypeToBackend pg) d")
    case None
    with that show ?thesis by (simp add: getBackend_def)
  next
    case (Some x)
    from cache_consistent_hit [OF cc Some] that have "x = b" by simp
    with Some show ?thesis by (simp add: getBackend_def)
  qed
  have success: "(\<exists>ct. map_of (deviceTypeToBackendType pg) d = Some ct \<and>
                  map_of (backendTypeToBackend pg) ct = Some c) \<and>
            map_of (deviceTypeToBackend pg') = (map_of (deviceTypeToBackend pg))(d \<mapsto> c) \<and>
            pg' = pg\<lparr>deviceTypeToBackend := deviceTypeToBackend pg'\<rparr> \<and>
            getBackend d pg' = Inr (c, pg')"
    if ok: "getBackend d pg = Inr (c, pg')"
  proof -
    from getBackend_cases [OF ok] show ?thesis
    proof
      assume hit: "map_of (deviceTypeToBackend pg) d = Some c \<and> pg' = pg"
      then have "(map_of (deviceTypeToBackend pg))(d \<mapsto> c) = map_of (deviceTypeToBackend pg)"
        by (simp add: fun_upd_idem)
      with hit ok cache_consistent_hit [OF cc, of d c] show ?thesis by simp
    next
      assume miss: "map_of (deviceTypeToBackend pg) d = None \<and>
        (\<exists>bt. map_of (deviceTypeToBackendType pg) d = Some bt \<and>
              map_of (backendTypeToBackend pg) bt = Some c) \<and>
        pg' = pg\<lparr>deviceTypeToBackend := AList.update d c (deviceTypeToBackend pg)\<rparr>"
      then have again: "getBackend d pg' = Inr (c, pg')"
        by (simp add: getBackend_def update_conv')
      from miss again show ?thesis by (simp add: update_conv')
    qed
  qed
  from unconfigured unconstructed live success show ?thesis by blast
qed

text \<open>
  The spec's scenario: CPU maps to GLOO and CUDA to NCCL, only the GLOO backend is
  constructed. Resolving CUDA fails, resolving an unmapped device type fails,
  resolving CPU succeeds with backend 0, which is cached, and resolving CPU again
  is a cache hit.
\<close>

theorem getBackend_resolution_witness:
  "group_reachable scenario_group \<and>
   getBackend (OtherDevice 3) scenario_group = Inl (NoBackendTypeForDevice (OtherDevice 3)) \<and>
   getBackend CUDA scenario_group = Inl (CouldNotRetrieveBackend NCCL CUDA) \<and>
   getBackend CPU scenario_group =
     Inr (0, scenario_group\<lparr>deviceTypeToBackend := [(CPU, 0)]\<rparr>) \<and>
   map_of (deviceTypeToBackend (scenario_group\<lparr>deviceTypeToBackend := [(CPU, 0)]\<rparr>)) CPU = Some 0 \<and>
   getBackend CPU (scenario_group\<lparr>deviceTypeToBackend := [(CPU, 0)]\<rparr>) =
     Inr (0, scenario_group\<lparr>deviceTypeToBackend := [(CPU, 0)]\<rparr>)"
proof -
  have r: "group_reachable scenario_group"
    by (rule group_reachable.set_up) (simp add: scenario_group_fields)
  have other: "map_of (deviceTypeToBackendType scenario_group) (OtherDevice 3) = None"
    by (simp add: scenario_group_fields)
  have cuda: "map_of (deviceTypeToBackendType scenario_group) CUDA = Some NCCL \<and>
              map_of (backendTypeToBackend scenario_group) NCCL = None"
    by (simp add: scenario_group_fields)
  have cpu: "getBackend CPU scenario_group =
               Inr (0, scenario_group\<lparr>deviceTypeToBackend := [(CPU, 0)]\<rparr>)"
    by (simp add: getBackend_def scenario_group_fields)
  from other getBackend_resolution [OF r, where d = "OtherDevice 3"]
  have a: "getBackend (OtherDevice 3) scenario_group = Inl (NoBackendTypeForDevice (OtherDevice 3))"
    by blast
  from cuda getBackend_resolution [OF r, where d = CUDA and bt = NCCL]
  have b: "getBackend CUDA scenario_group = Inl (CouldNotRetrieveBackend NCCL CUDA)"
    by blast
  from cpu getBackend_resolution [OF r, where d = CPU and c = 0
      and pg' = "scenario_group\<lparr>deviceTypeToBackend := [(CPU, 0)]\<rparr>"]
  have c: "getBackend CPU (scenario_group\<lparr>deviceTypeToBackend := [(CPU, 0)]\<rparr>) =
             Inr (0, scenario_group\<lparr>deviceTypeToBackend := [(CPU, 0)]\<rparr>)"
    by blast
  from r a b cpu c show ?thesis by simp
qed

text \<open>
  Claim C6, as amended. \<^verbatim>\<open>getGroupName\<close> reads the first entry of the device-type
  index, not of the backend-type index: it returns the group UID of that backend,
  and fails with "ProcessGroup name not set" exactly when the device-type index is
  empty. That is the case for a freshly constructed group and for every group
  after \<^verbatim>\<open>release_resources\<close>.
\<close>

theorem getGroupName_reads_device_index:
  "getGroupName pg bs =
     (if deviceTypeToBackend pg = [] then Inl GroupNameNotSet
      else Inr (getGroupUid bs (snd (hd (deviceTypeToBackend pg))))) \<and>
   getGroupName (release_resources pg) bs = Inl GroupNameNotSet \<and>
   getGroupName (ProcessGroup_with_store st r n) bs = Inl GroupNameNotSet \<and>
   getGroupName (ProcessGroup_without_store r n) bs = Inl GroupNameNotSet"
  by (simp add: getGroupName_def release_resources_def ProcessGroup_with_store_def
      ProcessGroup_without_store_def split: list.splits)

theorem getGroupName_reads_device_index_witness:
  "getGroupName half_resolved_group example_backends = Inr ''pg0'' \<and>
   getGroupName (release_resources half_resolved_group) example_backends = Inl GroupNameNotSet"
  using getGroupName_reads_device_index [where pg = half_resolved_group and bs = example_backends]
  by (simp add: half_resolved_group_fields getGroupUid_def example_backends_def)

text \<open>
  Claim C6 as stated fails: a backend is attached under GLOO, so the backend-type
  index has a first entry with the group UID \<open>''pg0''\<close>, but no device type has been
  resolved yet and the call fails.
\<close>

theorem getGroupName_backend_index_counterexample:
  "backendTypeToBackend scenario_group = [(GLOO, 0)] \<and>
   getGroupUid example_backends (snd (hd (backendTypeToBackend scenario_group))) = ''pg0'' \<and>
   getGroupName scenario_group example_backends = Inl GroupNameNotSet"
  by (simp add: getGroupName_def scenario_group_fields getGroupUid_def example_backends_def)

text \<open>
  Claim C10. The description is a field of the group: \<^verbatim>\<open>getGroupDesc\<close> after
  \<^verbatim>\<open>setGroupDesc d\<close> returns \<open>d\<close> for every group, whatever backends it has,
  also when \<^verbatim>\<open>release_resources\<close> runs in between or before, and for a group as
  constructed with no backend. \<^verbatim>\<open>getGroupDesc\<close> has no failure branch.
\<close>

theorem getGroupDesc_after_setGroupDesc:
  "getGroupDesc (fst (setGroupDesc d (pg, bs))) = d \<and>
   getGroupDesc (release_resources (fst (setGroupDesc d (pg, bs)))) = d \<and>
   getGroupDesc (fst (setGroupDesc d (release_resources pg, bs))) = d \<and>
   getGroupDesc (fst (setGroupDesc d (ProcessGroup_without_store r n, bs))) = d \<and>
   deviceTypeToBackend (release_resources pg) = [] \<and>
   backendTypeToBackend (release_resources pg) = [] \<and>
   pg_store (release_resources pg) = None"
  by (simp add: getGroupDesc_def setGroupDesc_def release_resources_def)

theorem getGroupDesc_after_setGroupDesc_witness:
  "getGroupDesc (release_resources
     (fst (setGroupDesc ''tensor parallel'' (half_resolved_group, example_backends)))) =
     ''tensor parallel'' \<and>
   getGroupDesc (fst (setGroupDesc ''tensor parallel''
     (ProcessGroup_without_store 0 2, example_backends))) = ''tensor parallel''"
  using getGroupDesc_after_setGroupDesc
    [where d = "''tensor parallel''" and pg = half_resolved_group and bs = example_backends
       and r = 0 and n = 2]
  by simp

section \<open>The registry: lemmas about its loops\<close>

lemma still_pending_iff:
  "still_pending ws work = (defined work \<and> (\<forall>w. work = Some w \<longrightarrow> \<not> isCompleted ws w))"
  by (cases work) (simp_all add: still_pending_def defined_def isCompleted_def)

lemma collect_uncompleted_filter:
  "collect_uncompleted ws hs acc = acc @ filter (still_pending ws) hs"
  by (induction hs arbitrary: acc)
     (auto simp: still_pending_def isCompleted_def split: option.splits)

lemma prune_entries_filter:
  "prune_entries ws reg =
     filter (\<lambda>entry. snd entry \<noteq> [])
       (map (\<lambda>entry. (fst entry, filter (still_pending ws) (snd entry))) reg)"
  by (induction reg) (auto simp: collect_uncompleted_filter Let_def)

lemma prune_entries_keys: "set (map fst (prune_entries ws reg)) \<subseteq> set (map fst reg)"
  by (induction reg) (auto simp: Let_def)

lemma prune_entries_distinct:
  "distinct (map fst reg) \<Longrightarrow> distinct (map fst (prune_entries ws reg))"
proof (induction reg)
  case Nil
  then show ?case by simp
next
  case (Cons entry reg)
  have "fst entry \<notin> set (map fst (prune_entries ws reg))"
    using Cons.prems prune_entries_keys [of ws reg] by auto
  with Cons show ?case by (simp add: Let_def)
qed

lemma prune_entries_lookup:
  "distinct (map fst reg) \<Longrightarrow>
   map_of (prune_entries ws reg) k =
     (case map_of reg k of
        None \<Rightarrow> None
      | Some hs \<Rightarrow>
          if filter (still_pending ws) hs = [] then None
          else Some (filter (still_pending ws) hs))"
proof (induction reg)
  case Nil
  then show ?case by simp
next
  case (Cons entry reg)
  obtain k' hs' where entry: "entry = (k', hs')" by (cases entry)
  have absent: "map_of reg k' = None"
    using Cons.prems entry by (simp add: map_of_eq_None_iff)
  have ih: "map_of (prune_entries ws reg) k =
     (case map_of reg k of None \<Rightarrow> None
      | Some hs \<Rightarrow> if filter (still_pending ws) hs = [] then None
          else Some (filter (still_pending ws) hs))"
    using Cons by simp
  show ?case
  proof (cases "k = k'")
    case True
    then show ?thesis
      using ih absent entry by (simp add: Let_def collect_uncompleted_filter)
  next
    case False
    then show ?thesis
      using ih entry by (simp add: Let_def)
  qed
qed

lemma fold_total_size:
  "fold (\<lambda>entry total_size. total_size + length (snd entry)) reg n =
     n + sum_list (map (\<lambda>entry. length (snd entry)) reg)"
  by (induction reg arbitrary: n) auto

lemma registry_size_sum:
  "WorkRegistry_get_work_registry_size s =
     sum_list (map (\<lambda>entry. length (snd entry)) (registry s))"
  by (simp add: WorkRegistry_get_work_registry_size_def fold_total_size)

lemma prune_entries_size:
  "sum_list (map (\<lambda>entry. length (snd entry)) (prune_entries ws reg)) =
   sum_list (map (\<lambda>entry. length (filter (still_pending ws) (snd entry))) reg)"
  by (induction reg) (auto simp: Let_def collect_uncompleted_filter)

lemma size_split:
  "sum_list (map (\<lambda>entry. length (snd entry)) reg) =
   sum_list (map (\<lambda>entry. length (filter P (snd entry))) reg) +
   sum_list (map (\<lambda>entry. length (filter (\<lambda>h. \<not> P h) (snd entry))) reg)"
proof (induction reg)
  case Nil
  then show ?case by simp
next
  case (Cons entry reg)
  have "length (snd entry) =
          length (filter P (snd entry)) + length (filter (\<lambda>h. \<not> P h) (snd entry))"
    using sum_length_filter_compl [of P "snd entry"] by simp
  with Cons show ?case by simp
qed

lemma prune_size_le:
  "WorkRegistry_get_work_registry_size (WorkRegistry_unregister_completed_works s)
     \<le> WorkRegistry_get_work_registry_size s"
proof -
  have "sum_list (map (\<lambda>entry. length (filter (still_pending (works s)) (snd entry))) reg)
          \<le> sum_list (map (\<lambda>entry. length (snd entry)) reg)"
    for reg :: "(weak_storage \<times> work_ptr list) list"
    by (induction reg) (auto intro: add_mono)
  then show ?thesis
    by (simp add: registry_size_sum WorkRegistry_unregister_completed_works_def prune_entries_size)
qed

lemma length_concat_sum:
  "length (concat (map snd reg)) = sum_list (map (\<lambda>entry. length (snd entry)) reg)"
  by (induction reg) auto


text \<open>The keys of the registry stay distinct, as those of a hash map are.\<close>

lemma keys_distinct_preserved:
  assumes "distinct (map fst (registry s))"
  shows "distinct (map fst (registry (fst (WorkRegistry_register_work t h s)))) \<and>
         distinct (map fst (registry (fst (pop_works t s)))) \<and>
         distinct (map fst (registry (WorkRegistry_unregister_completed_works s)))"
proof -
  have a: "distinct (map fst (registry (fst (WorkRegistry_register_work t h s))))"
    using assms
    by (auto simp: WorkRegistry_register_work_def TORCH_WARN_ONCE_def TORCH_WARN_def
        distinct_map_entry map_of_eq_None_iff split: option.splits)
  have b: "distinct (map fst (registry (fst (pop_works t s))))"
    using assms by (auto simp: pop_works_def distinct_delete split: option.splits)
  have c: "distinct (map fst (registry (WorkRegistry_unregister_completed_works s)))"
    using assms by (simp add: WorkRegistry_unregister_completed_works_def prune_entries_distinct)
  from a b c show ?thesis by simp
qed

text \<open>Registration appends: the handles of a storage are held in the order of issue.\<close>

lemma register_appends:
  "has_storage t \<Longrightarrow> storage t = Some k \<Longrightarrow>
   snd (WorkRegistry_register_work t h s) = Inr () \<and>
   map_of (registry (fst (WorkRegistry_register_work t h s))) k =
     Some ((case map_of (registry s) k of None \<Rightarrow> [] | Some hs \<Rightarrow> hs) @ [h])"
  by (auto simp: WorkRegistry_register_work_def map_of_map_entry map_add_def
      split: option.splits)


lemma wait_all_registry: "registry (fst (wait_all hs s)) = registry s"
proof (induction hs arbitrary: s)
  case Nil
  then show ?case by simp
next
  case (Cons h hs)
  show ?case
  proof (cases h)
    case None
    then show ?thesis by simp
  next
    case (Some w)
    have step: "registry (fst (Work_wait w s)) = registry s"
      by (simp add: Work_wait_def Let_def)
    show ?thesis
    proof (cases "wait_raises (works s w)")
      case True
      then show ?thesis using Some by (simp add: Work_wait_def Let_def)
    next
      case False
      then have "wait_all (h # hs) s = wait_all hs (fst (Work_wait w s))"
        using Some by (simp add: Work_wait_def Let_def)
      then show ?thesis using Cons.IH [of "fst (Work_wait w s)"] step by simp
    qed
  qed
qed


lemma wait_tensor_registry:
  "registry (fst (wait_tensor t s)) = registry (fst (pop_works t s))"
proof (cases "pop_works t s")
  case (Pair s1 r1)
  show ?thesis
  proof (cases r1)
    case (Inl e)
    with Pair show ?thesis by (simp add: wait_tensor_def)
  next
    case (Inr hs)
    obtain s2 r2 where w: "wait_all hs s1 = (s2, r2)" by (cases "wait_all hs s1")
    have "registry s2 = registry s1" using wait_all_registry [of hs s1] w by simp
    with Pair Inr w show ?thesis by (cases r2) (simp_all add: wait_tensor_def)
  qed
qed

lemma prune_entries_no_empty: "list_all (\<lambda>entry. snd entry \<noteq> []) (prune_entries ws reg)"
  by (induction reg) (auto simp: Let_def)

lemma delete_no_empty:
  "list_all (\<lambda>entry. snd entry \<noteq> []) reg \<Longrightarrow>
   list_all (\<lambda>entry. snd entry \<noteq> []) (AList.delete k reg)"
  by (induction reg) auto

lemma map_entry_append_no_empty:
  "list_all (\<lambda>entry. snd entry \<noteq> []) reg \<Longrightarrow>
   list_all (\<lambda>entry. snd entry \<noteq> []) (AList.map_entry k (\<lambda>hs. hs @ [h]) reg)"
  by (induction reg) auto

lemma WorkRegistry_register_work_no_empty:
  "no_empty_entries s \<Longrightarrow> no_empty_entries (fst (WorkRegistry_register_work t h s))"
  by (auto simp: no_empty_entries_def WorkRegistry_register_work_def TORCH_WARN_ONCE_def
      TORCH_WARN_def map_entry_append_no_empty split: option.splits)

lemma pop_works_no_empty:
  "no_empty_entries s \<Longrightarrow> no_empty_entries (fst (pop_works t s))"
  by (auto simp: no_empty_entries_def pop_works_def delete_no_empty split: option.splits)

lemma unregister_no_empty: "no_empty_entries (WorkRegistry_unregister_completed_works s)"
  by (simp add: no_empty_entries_def WorkRegistry_unregister_completed_works_def
      prune_entries_no_empty)

lemma register_work_no_empty:
  "no_empty_entries s \<Longrightarrow> no_empty_entries (fst (register_work flags env t h s))"
  using unregister_no_empty [of s]
  by (simp add: register_work_def Let_def WorkRegistry_register_work_no_empty)

lemma wait_tensor_no_empty:
  "no_empty_entries s \<Longrightarrow> no_empty_entries (fst (wait_tensor t s))"
  using pop_works_no_empty [of s t] by (simp add: no_empty_entries_def wait_tensor_registry)

lemma reachable_no_empty: "reachable s \<Longrightarrow> no_empty_entries s"
proof (induction rule: reachable.induct)
  case (initial ws)
  show ?case by (simp add: no_empty_entries_def empty_registry_def)
next
  case (registered s flags env t h)
  then show ?case by (simp add: register_work_no_empty)
next
  case (registered_method s t h)
  then show ?case by (simp add: WorkRegistry_register_work_no_empty)
next
  case (waited s t)
  then show ?case by (simp add: wait_tensor_no_empty)
next
  case (pruned s)
  show ?case by (simp add: unregister_completed_works_def unregister_no_empty)
next
  case (progressed s ws)
  then show ?case by (simp add: no_empty_entries_def)
qed

text \<open>Every reachable registry has distinct keys.\<close>

lemma reachable_keys_distinct: "reachable s \<Longrightarrow> distinct (map fst (registry s))"
proof (induction rule: reachable.induct)
  case (initial ws)
  show ?case by (simp add: empty_registry_def)
next
  case (registered s flags env t h)
  have "distinct (map fst (registry (WorkRegistry_unregister_completed_works s)))"
    using keys_distinct_preserved [OF registered.IH] by simp
  then show ?case
    using registered.IH
      keys_distinct_preserved [of s t h]
      keys_distinct_preserved [of "WorkRegistry_unregister_completed_works s" t h]
    by (simp add: register_work_def Let_def)
next
  case (registered_method s t h)
  then show ?case using keys_distinct_preserved [of s t h] by simp
next
  case (waited s t)
  then show ?case using keys_distinct_preserved [of s t] by (simp add: wait_tensor_registry)
next
  case (pruned s)
  then show ?case
    using keys_distinct_preserved [of s] by (simp add: unregister_completed_works_def)
next
  case (progressed s ws)
  then show ?case by simp
qed

lemma reachable_register_all: "reachable s \<Longrightarrow> reachable (register_all t hs s)"
  by (induction hs arbitrary: s) (auto intro: reachable.registered_method)




subsection \<open>The example states, evaluated\<close>

lemma mixed_registry_eval:
  "mixed_registry =
     (empty_registry example_works)
       \<lparr>registry := [(7, [Some 0, Some 1, Some 2]), (8, [Some 0, Some 1])]\<rparr>"
  by (simp add: mixed_registry_def dense_tensor_def empty_registry_def
      WorkRegistry_register_work_def)

lemma null_handle_registry_eval:
  "null_handle_registry =
     (empty_registry example_works)\<lparr>registry := [(7, [None, Some 2]), (9, [None])]\<rparr>"
  by (simp add: null_handle_registry_def dense_tensor_def empty_registry_def
      WorkRegistry_register_work_def)

lemma pending_registry_eval:
  "pending_registry = (empty_registry example_works)\<lparr>registry := [(7, [Some 2, Some 3])]\<rparr>"
  by (simp add: pending_registry_def dense_tensor_def empty_registry_def
      WorkRegistry_register_work_def)



section \<open>The registry: theorems\<close>

lemma can_unregister_completed_works_iff:
  "can_unregister_completed_works flags env =
     (\<not> (USE_CUDA flags \<and> \<not> USE_ROCM flags \<and> is_available env \<and> \<not> is_capturing env))"
  by (simp add: can_unregister_completed_works_def)

text \<open>
  Claim C1 says that pruning is suppressed exactly while a capture is in progress on
  an available accelerator. In a CUDA build the condition in the code is negated:
  with CUDA available and no capture in progress
  \<^verbatim>\<open>can_unregister_completed_works\<close> answers false, and during a capture it
  answers true. The theorem evaluates the code there: \<^verbatim>\<open>register_work\<close> outside a
  capture leaves the four completed handles of the example in the registry, and
  during a capture it prunes them.
\<close>

theorem can_unregister_completed_works_negated:
  "can_unregister_completed_works cuda_build \<lparr>is_available = True, is_capturing = False\<rparr> = False \<and>
   can_unregister_completed_works cuda_build \<lparr>is_available = True, is_capturing = True\<rparr> = True \<and>
   registry (fst (register_work cuda_build \<lparr>is_available = True, is_capturing = False\<rparr>
                    (dense_tensor 9) (Some 3) mixed_registry)) =
     [(7, [Some 0, Some 1, Some 2]), (8, [Some 0, Some 1]), (9, [Some 3])] \<and>
   registry (fst (register_work cuda_build \<lparr>is_available = True, is_capturing = True\<rparr>
                    (dense_tensor 9) (Some 3) mixed_registry)) =
     [(7, [Some 2]), (9, [Some 3])]"
  by (simp add: can_unregister_completed_works_def cuda_build_def register_work_def
      mixed_registry_eval empty_registry_def dense_tensor_def WorkRegistry_register_work_def
      WorkRegistry_unregister_completed_works_def isCompleted_def example_works_def)

text \<open>
  Claim C2, as amended. Pruning keeps, under each key, exactly the handles that are
  defined and not completed, in their original order, and drops every other
  handle: the completed ones and the undefined ones. A key with nothing left is
  removed and any other key stays. The registry size afterwards is the number of
  kept handles, and the size before is that number plus the number of dropped
  handles. Work objects and the trace of waits are untouched.
\<close>

theorem prune_keeps_defined_uncompleted:
  assumes "distinct (map fst (registry s))"
  shows "(\<forall>k. map_of (registry (unregister_completed_works s)) k =
            (case map_of (registry s) k of
               None \<Rightarrow> None
             | Some hs \<Rightarrow>
                 if filter (still_pending (works s)) hs = [] then None
                 else Some (filter (still_pending (works s)) hs))) \<and>
         get_work_registry_size (unregister_completed_works s) =
           sum_list (map (\<lambda>entry. length (filter (still_pending (works s)) (snd entry)))
                      (registry s)) \<and>
         get_work_registry_size s =
           get_work_registry_size (unregister_completed_works s) +
           sum_list (map (\<lambda>entry. length (filter (\<lambda>h. \<not> still_pending (works s) h) (snd entry)))
                      (registry s)) \<and>
         works (unregister_completed_works s) = works s \<and>
         wait_calls (unregister_completed_works s) = wait_calls s"
proof -
  have lookup: "\<forall>k. map_of (registry (unregister_completed_works s)) k =
            (case map_of (registry s) k of
               None \<Rightarrow> None
             | Some hs \<Rightarrow>
                 if filter (still_pending (works s)) hs = [] then None
                 else Some (filter (still_pending (works s)) hs))"
    using prune_entries_lookup [OF assms]
    by (simp add: unregister_completed_works_def WorkRegistry_unregister_completed_works_def)
  have after: "get_work_registry_size (unregister_completed_works s) =
           sum_list (map (\<lambda>entry. length (filter (still_pending (works s)) (snd entry)))
                      (registry s))"
    by (simp add: get_work_registry_size_def registry_size_sum unregister_completed_works_def
        WorkRegistry_unregister_completed_works_def prune_entries_size)
  have before: "get_work_registry_size s =
           get_work_registry_size (unregister_completed_works s) +
           sum_list (map (\<lambda>entry. length (filter (\<lambda>h. \<not> still_pending (works s) h) (snd entry)))
                      (registry s))"
    unfolding after
    using size_split [of "registry s" "still_pending (works s)"]
    by (simp add: get_work_registry_size_def registry_size_sum)
  have frame: "works (unregister_completed_works s) = works s \<and>
         wait_calls (unregister_completed_works s) = wait_calls s"
    by (simp add: unregister_completed_works_def WorkRegistry_unregister_completed_works_def)
  from lookup after before frame show ?thesis by blast
qed

text \<open>
  The spec's example: under storage 7 the handles are completed, completed, pending,
  and exactly the pending one remains; under storage 8 all are completed and the key
  is removed; the size goes from 5 to 1.
\<close>

theorem prune_keeps_defined_uncompleted_witness:
  "distinct (map fst (registry mixed_registry)) \<and>
   map_of (registry mixed_registry) 7 = Some [Some 0, Some 1, Some 2] \<and>
   map_of (registry (unregister_completed_works mixed_registry)) 7 = Some [Some 2] \<and>
   map_of (registry (unregister_completed_works mixed_registry)) 8 = None \<and>
   get_work_registry_size mixed_registry = 5 \<and>
   get_work_registry_size (unregister_completed_works mixed_registry) = 1"
proof -
  have d: "distinct (map fst (registry mixed_registry))"
    by (simp add: mixed_registry_eval)
  have reg: "registry mixed_registry = [(7, [Some 0, Some 1, Some 2]), (8, [Some 0, Some 1])]"
    and ws: "works mixed_registry = example_works"
    by (simp_all add: mixed_registry_eval empty_registry_def)
  note pruned = prune_keeps_defined_uncompleted [OF d]
  from pruned have "map_of (registry (unregister_completed_works mixed_registry)) 7 = Some [Some 2]"
    by (simp add: reg ws still_pending_def example_works_def)
  moreover
  from pruned have "map_of (registry (unregister_completed_works mixed_registry)) 8 = None"
    by (simp add: reg ws still_pending_def example_works_def)
  moreover
  from pruned have "get_work_registry_size (unregister_completed_works mixed_registry) = 1"
    by (simp add: reg ws still_pending_def example_works_def)
  moreover
  from pruned have "get_work_registry_size mixed_registry = 5"
    by (simp add: reg ws still_pending_def example_works_def)
  ultimately show ?thesis using d reg by simp
qed

text \<open>
  Claim C2 as stated fails on undefined handles: they are not "defined and
  completed", yet pruning drops them. Registered through \<^verbatim>\<open>register_work\<close>, a null
  handle next to a pending one under storage 7 and a null handle alone under
  storage 9: afterwards only the pending handle is left and storage 9 is gone.
\<close>

theorem prune_drops_undefined_counterexample:
  "registry null_handle_registry = [(7, [None, Some 2]), (9, [None])] \<and>
   \<not> defined None \<and>
   registry (unregister_completed_works null_handle_registry) = [(7, [Some 2])] \<and>
   get_work_registry_size null_handle_registry = 3 \<and>
   get_work_registry_size (unregister_completed_works null_handle_registry) = 1"
  by (simp add: null_handle_registry_eval empty_registry_def defined_def
      unregister_completed_works_def WorkRegistry_unregister_completed_works_def
      get_work_registry_size_def WorkRegistry_get_work_registry_size_def
      isCompleted_def example_works_def)




text \<open>
  Claim C7. The registry never maps a key to an empty handle list. The empty
  registry has the property, and every operation preserves it: registration (the
  method and the free function, which may prune first), \<^verbatim>\<open>pop_works\<close> and
  \<^verbatim>\<open>wait_tensor\<close> built on it, and pruning. Hence it holds in every reachable
  state.
\<close>

theorem registry_never_holds_empty_list:
  "no_empty_entries (empty_registry ws) \<and>
   (no_empty_entries s \<longrightarrow>
      no_empty_entries (fst (WorkRegistry_register_work t h s)) \<and>
      no_empty_entries (fst (pop_works t s)) \<and>
      no_empty_entries (WorkRegistry_unregister_completed_works s) \<and>
      no_empty_entries (fst (register_work flags env t h s)) \<and>
      no_empty_entries (fst (wait_tensor t s)) \<and>
      no_empty_entries (unregister_completed_works s)) \<and>
   (reachable s \<longrightarrow> no_empty_entries s)"
proof -
  have base: "no_empty_entries (empty_registry ws)"
    by (simp add: no_empty_entries_def empty_registry_def)
  have step: "no_empty_entries (fst (WorkRegistry_register_work t h s)) \<and>
      no_empty_entries (fst (pop_works t s)) \<and>
      no_empty_entries (WorkRegistry_unregister_completed_works s) \<and>
      no_empty_entries (fst (register_work flags env t h s)) \<and>
      no_empty_entries (fst (wait_tensor t s)) \<and>
      no_empty_entries (unregister_completed_works s)" if inv: "no_empty_entries s"
    using inv
    by (simp add: WorkRegistry_register_work_no_empty pop_works_no_empty unregister_no_empty
        register_work_no_empty wait_tensor_no_empty unregister_completed_works_def)
  from base step reachable_no_empty show ?thesis by blast
qed

theorem registry_never_holds_empty_list_witness:
  "reachable mixed_registry \<and>
   no_empty_entries mixed_registry \<and>
   no_empty_entries (fst (WorkRegistry_register_work (dense_tensor 7) (Some 3) mixed_registry)) \<and>
   no_empty_entries (fst (pop_works (dense_tensor 7) mixed_registry)) \<and>
   no_empty_entries (fst (wait_tensor (dense_tensor 7) mixed_registry)) \<and>
   no_empty_entries (unregister_completed_works mixed_registry)"
proof -
  have r: "reachable mixed_registry"
    unfolding mixed_registry_def
    by (intro reachable_register_all reachable.initial)
  note inv = registry_never_holds_empty_list
      [where s = mixed_registry and t = "dense_tensor 7" and h = "Some 3"]
  from inv r have m: "no_empty_entries mixed_registry" by blast
  from inv r m show ?thesis by blast
qed

text \<open>
  Claim C8. For a tensor without storage, registration returns without an error
  and leaves the registry, and with it the registry size, as it was; the warning
  is emitted if this is the first time and is not emitted again. Through the free
  function, which may prune first, the call returns without an error, the size
  does not grow and no key is added.
\<close>

theorem register_without_storage_is_noop:
  assumes "\<not> has_storage t"
  shows "snd (WorkRegistry_register_work t h s) = Inr () \<and>
         registry (fst (WorkRegistry_register_work t h s)) = registry s \<and>
         get_work_registry_size (fst (WorkRegistry_register_work t h s)) =
           get_work_registry_size s \<and>
         warnings (fst (WorkRegistry_register_work t h s)) =
           (if warned_once s then warnings s
            else warnings s @ [NoStorageWarning (toString t)]) \<and>
         warned_once (fst (WorkRegistry_register_work t h s)) \<and>
         wait_calls (fst (WorkRegistry_register_work t h s)) = wait_calls s \<and>
         snd (register_work flags env t h s) = Inr () \<and>
         get_work_registry_size (fst (register_work flags env t h s)) \<le>
           get_work_registry_size s \<and>
         set (map fst (registry (fst (register_work flags env t h s)))) \<subseteq>
           set (map fst (registry s))"
proof -
  have noop: "WorkRegistry_register_work t h s' =
      (TORCH_WARN_ONCE (NoStorageWarning (toString t)) s', Inr ())" for s'
    using assms by (simp add: WorkRegistry_register_work_def)
  have warn_registry: "registry (TORCH_WARN_ONCE w s') = registry s'" for w s'
    by (simp add: TORCH_WARN_ONCE_def TORCH_WARN_def)
  have size_eq: "get_work_registry_size (TORCH_WARN_ONCE w s') = get_work_registry_size s'"
    for w s'
    by (simp add: get_work_registry_size_def WorkRegistry_get_work_registry_size_def
        warn_registry)
  have facade_size:
    "get_work_registry_size (fst (register_work flags env t h s)) \<le> get_work_registry_size s"
    using prune_size_le [of s]
    by (simp add: register_work_def Let_def noop size_eq)
       (simp add: get_work_registry_size_def)
  have facade_keys:
    "set (map fst (registry (fst (register_work flags env t h s)))) \<subseteq> set (map fst (registry s))"
    using prune_entries_keys [of "works s" "registry s"]
    by (simp add: register_work_def Let_def noop warn_registry
        WorkRegistry_unregister_completed_works_def)
  have facade_ok: "snd (register_work flags env t h s) = Inr ()"
    by (simp add: register_work_def Let_def noop)
  have log: "warnings (fst (WorkRegistry_register_work t h s)) =
           (if warned_once s then warnings s
            else warnings s @ [NoStorageWarning (toString t)]) \<and>
         warned_once (fst (WorkRegistry_register_work t h s)) \<and>
         wait_calls (fst (WorkRegistry_register_work t h s)) = wait_calls s"
    by (simp add: noop TORCH_WARN_ONCE_def TORCH_WARN_def)
  from noop [of s] warn_registry size_eq facade_size facade_keys facade_ok log
  show ?thesis by simp
qed

theorem register_without_storage_is_noop_witness:
  "\<not> has_storage sparse_tensor \<and>
   snd (WorkRegistry_register_work sparse_tensor (Some 4) pending_registry) = Inr () \<and>
   registry (fst (WorkRegistry_register_work sparse_tensor (Some 4) pending_registry)) =
     [(7, [Some 2, Some 3])] \<and>
   get_work_registry_size (fst (WorkRegistry_register_work sparse_tensor (Some 4) pending_registry)) =
     get_work_registry_size pending_registry \<and>
   warnings (fst (WorkRegistry_register_work sparse_tensor (Some 4) pending_registry)) =
     [NoStorageWarning ''SparseCPUFloatType'']"
proof -
  have ns: "\<not> has_storage sparse_tensor" by (simp add: sparse_tensor_def)
  have st: "registry pending_registry = [(7, [Some 2, Some 3])] \<and>
            \<not> warned_once pending_registry \<and> warnings pending_registry = [] \<and>
            toString sparse_tensor = ''SparseCPUFloatType''"
    by (simp add: pending_registry_eval empty_registry_def sparse_tensor_def)
  from ns st register_without_storage_is_noop
      [OF ns, where h = "Some 4" and s = pending_registry]
  show ?thesis by simp
qed

text \<open>
  Claim C9. The destructor emits one warning carrying the registry size when that
  size is positive and none when it is zero. It invokes \<^verbatim>\<open>wait()\<close> on no handle and
  touches no work object; it gives up every handle it holds, as many as the
  registry size, and leaves every slot null. It has no failure branch.
\<close>

theorem destructor_warns_once_and_releases:
  "warnings (WorkRegistry_destructor s) =
     (if 0 < get_work_registry_size s
      then warnings s @ [UnwaitedWarning (get_work_registry_size s)]
      else warnings s) \<and>
   wait_calls (WorkRegistry_destructor s) = wait_calls s \<and>
   works (WorkRegistry_destructor s) = works s \<and>
   released (WorkRegistry_destructor s) = released s @ concat (map snd (registry s)) \<and>
   length (concat (map snd (registry s))) = get_work_registry_size s \<and>
   list_all (\<lambda>entry. list_all (\<lambda>work. work = None) (snd entry))
     (registry (WorkRegistry_destructor s))"
proof -
  let ?n = "WorkRegistry_get_work_registry_size s"
  let ?s1 = "if 0 < ?n then TORCH_WARN (UnwaitedWarning ?n) s else s"
  have unfold: "WorkRegistry_destructor s =
      ?s1\<lparr>released := released ?s1 @ concat (map snd (registry ?s1)),
           registry := map (\<lambda>entry. (fst entry, map (\<lambda>work. None) (snd entry))) (registry ?s1)\<rparr>"
    by (simp only: WorkRegistry_destructor_def Let_def)
  have s1: "registry ?s1 = registry s \<and> released ?s1 = released s \<and>
            wait_calls ?s1 = wait_calls s \<and> works ?s1 = works s"
    by (simp add: TORCH_WARN_def)
  have log: "warnings (WorkRegistry_destructor s) =
     (if 0 < get_work_registry_size s
      then warnings s @ [UnwaitedWarning (get_work_registry_size s)]
      else warnings s)"
    unfolding unfold get_work_registry_size_def by (simp add: TORCH_WARN_def)
  have frame: "wait_calls (WorkRegistry_destructor s) = wait_calls s \<and>
               works (WorkRegistry_destructor s) = works s"
    unfolding unfold using s1 by simp
  have rel: "released (WorkRegistry_destructor s) = released s @ concat (map snd (registry s))"
    unfolding unfold using s1 by simp
  have count: "length (concat (map snd (registry s))) = get_work_registry_size s"
    by (simp add: get_work_registry_size_def registry_size_sum length_concat_sum)
  have "registry (WorkRegistry_destructor s) =
          map (\<lambda>entry. (fst entry, map (\<lambda>work. None) (snd entry))) (registry s)"
    unfolding unfold using s1 by simp
  then have nulls: "list_all (\<lambda>entry. list_all (\<lambda>work. work = None) (snd entry))
                      (registry (WorkRegistry_destructor s))"
    by (simp add: list_all_iff)
  from log frame rel count nulls show ?thesis by blast
qed

theorem destructor_warns_once_and_releases_witness:
  "get_work_registry_size mixed_registry = 5 \<and>
   warnings (WorkRegistry_destructor mixed_registry) = [UnwaitedWarning 5] \<and>
   wait_calls (WorkRegistry_destructor mixed_registry) = [] \<and>
   released (WorkRegistry_destructor mixed_registry) =
     [Some 0, Some 1, Some 2, Some 0, Some 1] \<and>
   warnings (WorkRegistry_destructor (empty_registry example_works)) = []"
proof -
  have sz: "get_work_registry_size mixed_registry = 5"
    and sz0: "get_work_registry_size (empty_registry example_works) = 0"
    by (simp_all add: get_work_registry_size_def WorkRegistry_get_work_registry_size_def
        mixed_registry_eval empty_registry_def)
  have st: "warnings mixed_registry = [] \<and> wait_calls mixed_registry = [] \<and>
            released mixed_registry = [] \<and>
            registry mixed_registry = [(7, [Some 0, Some 1, Some 2]), (8, [Some 0, Some 1])] \<and>
            warnings (empty_registry example_works) = []"
    by (simp add: mixed_registry_eval empty_registry_def)
  from destructor_warns_once_and_releases [of mixed_registry]
    destructor_warns_once_and_releases [of "empty_registry example_works"] sz sz0 st
  show ?thesis by simp
qed

end
